theory Spec2Isabelle
  imports Main
begin

unbundle bit_operations_syntax

section \<open>Python values\<close>

text \<open>
  The program is \<^verbatim>\<open>json_semi_beautifier.py\<close>: the class \<^verbatim>\<open>SemiBeautifier\<close> with its
  methods \<^verbatim>\<open>should_inline\<close>, \<^verbatim>\<open>format_value\<close> and \<^verbatim>\<open>beautify\<close>. It works on the trees
  \<^verbatim>\<open>json.load\<close> builds and writes text with \<^verbatim>\<open>json.dumps\<close>.

  A Python \<^verbatim>\<open>str\<close> is a sequence of Unicode code points and \<^verbatim>\<open>len\<close> counts code points,
  so a string is modelled as the list of its code points. \<open>lit\<close> turns an ASCII literal
  into such a list.
\<close>

type_synonym pystr = "nat list"

definition lit :: "string \<Rightarrow> pystr" where
  "lit s = map of_char s"

definition quote :: nat where
  "quote = 34"

definition backslash :: nat where
  "backslash = 92"

definition newline :: nat where
  "newline = 10"

text \<open>\<^verbatim>\<open>sep.join(items)\<close>\<close>

fun join :: "pystr \<Rightarrow> pystr list \<Rightarrow> pystr" where
  "join sep [] = []"
| "join sep [x] = x"
| "join sep (x # y # ys) = x @ sep @ join sep (y # ys)"

text \<open>\<^verbatim>\<open>s * n\<close> for a string \<open>s\<close> and a count that is never negative here.\<close>

definition str_mul :: "pystr \<Rightarrow> nat \<Rightarrow> pystr" where
  "str_mul s n = concat (replicate n s)"

text \<open>
  A Python \<^verbatim>\<open>float\<close> is kept as the text \<^verbatim>\<open>float.__repr__\<close> gives for it (the shortest
  decimal that reads back to the same double, or \<^verbatim>\<open>nan\<close>, \<^verbatim>\<open>inf\<close>, \<^verbatim>\<open>-inf\<close>): the
  program only ever prints a float, it never computes with one.
\<close>

datatype pyfloat = PyFloat (float_repr: pystr)

text \<open>
  The value tree of \<^verbatim>\<open>json.load\<close>: \<^verbatim>\<open>None\<close>, \<^verbatim>\<open>bool\<close>, \<^verbatim>\<open>int\<close> (unbounded),
  \<^verbatim>\<open>float\<close>, \<^verbatim>\<open>str\<close>, \<^verbatim>\<open>list\<close> and \<^verbatim>\<open>dict\<close>. A dict keeps its keys in insertion
  order and the output follows that order, so it is an association list.
\<close>

datatype json =
    JNull
  | JBool bool
  | JInt int
  | JFloat pyfloat
  | JStr pystr
  | JList "json list"
  | JDict "(pystr \<times> json) list"

text \<open>\<^verbatim>\<open>isinstance(obj, (str, int, float, bool, type(None)))\<close>\<close>

fun is_scalar :: "json \<Rightarrow> bool" where
  "is_scalar (JList _) = False"
| "is_scalar (JDict _) = False"
| "is_scalar _ = True"

text \<open>
  What the decoder can produce: code points in Unicode's range, the text of a float made
  of the characters a \<^verbatim>\<open>repr\<close> uses, and no key twice in one dict.
\<close>

definition wf_str :: "pystr \<Rightarrow> bool" where
  "wf_str s = list_all (\<lambda>c. c < 0x110000) s"

definition float_repr_ok :: "pystr \<Rightarrow> bool" where
  "float_repr_ok r = (r \<noteq> [] \<and> list_all (\<lambda>c. c \<in> set (lit ''0123456789.e+-infa'')) r)"

fun wf_json :: "json \<Rightarrow> bool" where
  "wf_json (JFloat f) = float_repr_ok (float_repr f)"
| "wf_json (JStr s) = wf_str s"
| "wf_json (JList xs) = list_all wf_json xs"
| "wf_json (JDict kvs) =
     (distinct (map fst kvs) \<and> list_all (\<lambda>(k, v). wf_str k \<and> wf_json v) kvs)"
| "wf_json _ = True"

section \<open>Errors\<close>

text \<open>
  The exceptions the program can meet. Two come from its own operations:
  \<^verbatim>\<open>next(iter(obj))\<close> on an empty dict (\<^verbatim>\<open>StopIteration\<close>) and \<^verbatim>\<open>obj[key]\<close> on a
  missing key (\<^verbatim>\<open>KeyError\<close>). Two come from the interpreter: \<^verbatim>\<open>RecursionError\<close>
  when a call would exceed the recursion limit, and the \<^verbatim>\<open>ValueError\<close> of
  \<^verbatim>\<open>json.dumps\<close> on an integer with more digits than the limit for the conversion of
  an integer to a string.
\<close>

datatype error = StopIteration | KeyError | RecursionError | ValueError

definition next_iter :: "(pystr \<times> json) list \<Rightarrow> error + pystr" where
  "next_iter obj = (case obj of [] \<Rightarrow> Inl StopIteration | (k, _) # _ \<Rightarrow> Inr k)"

definition getitem :: "(pystr \<times> json) list \<Rightarrow> pystr \<Rightarrow> error + json" where
  "getitem obj key = (case map_of obj key of None \<Rightarrow> Inl KeyError | Some v \<Rightarrow> Inr v)"

text \<open>
  \<^verbatim>\<open>for x in xs: if not f(x): return False\<close>, then the code after the loop runs: the
  result is whether the loop ran to its end. An error in \<open>f\<close> leaves the loop.
\<close>

fun for_all :: "('a \<Rightarrow> error + bool) \<Rightarrow> 'a list \<Rightarrow> error + bool" where
  "for_all f [] = Inr True"
| "for_all f (x # xs) =
     (case f x of Inl e \<Rightarrow> Inl e | Inr b \<Rightarrow> if \<not> b then Inr False else for_all f xs)"

text \<open>
  \<^verbatim>\<open>for x in xs: items.append(f(x))\<close>: the list of the results, or the first error.
\<close>

fun collect :: "('a \<Rightarrow> error + 'b) \<Rightarrow> 'a list \<Rightarrow> error + 'b list" where
  "collect f [] = Inr []"
| "collect f (x # xs) =
     (case f x of
        Inl e \<Rightarrow> Inl e
      | Inr y \<Rightarrow> (case collect f xs of Inl e \<Rightarrow> Inl e | Inr ys \<Rightarrow> Inr (y # ys)))"

lemma for_all_cong [fundef_cong]:
  "xs = ys \<Longrightarrow> (\<And>x. x \<in> set ys \<Longrightarrow> f x = g x) \<Longrightarrow> for_all f xs = for_all g ys"
  by (induction ys arbitrary: xs) (auto split: sum.splits)

lemma collect_cong [fundef_cong]:
  "xs = ys \<Longrightarrow> (\<And>x. x \<in> set ys \<Longrightarrow> f x = g x) \<Longrightarrow> collect f xs = collect g ys"
  by (induction ys arbitrary: xs) (auto split: sum.splits)

section \<open>\<^verbatim>\<open>json.dumps\<close>\<close>

text \<open>\<^verbatim>\<open>int.__repr__\<close>: decimal digits, with a minus sign for a negative number.\<close>

fun nat_repr :: "nat \<Rightarrow> pystr" where
  "nat_repr n = (if n < 10 then [48 + n] else nat_repr (n div 10) @ [48 + n mod 10])"

definition int_repr :: "int \<Rightarrow> pystr" where
  "int_repr i = (if i < 0 then lit ''-'' @ nat_repr (nat (- i)) else nat_repr (nat i))"

text \<open>
  The encoder's \<^verbatim>\<open>floatstr\<close>: \<^verbatim>\<open>NaN\<close>, \<^verbatim>\<open>Infinity\<close> and \<^verbatim>\<open>-Infinity\<close> for the three
  values that are not finite (\<^verbatim>\<open>allow_nan\<close> is left at its default), the \<^verbatim>\<open>repr\<close>
  otherwise.
\<close>

definition floatstr :: "pyfloat \<Rightarrow> pystr" where
  "floatstr f =
     (if float_repr f = lit ''nan'' then lit ''NaN''
      else if float_repr f = lit ''inf'' then lit ''Infinity''
      else if float_repr f = lit ''-inf'' then lit ''-Infinity''
      else float_repr f)"

text \<open>
  \<^verbatim>\<open>py_encode_basestring_ascii\<close> (\<^verbatim>\<open>ensure_ascii\<close> is left at its default): backslash
  and the quote are escaped, the printable ASCII characters stay, the control characters
  with a short escape use it, and every other code point becomes \<^verbatim>\<open>\uXXXX\<close>, as a
  surrogate pair beyond the basic plane. \<open>hex4\<close> is \<^verbatim>\<open>'{0:04x}'.format(n)\<close> for
  \<open>n < 0x10000\<close>, the only values it is called with on a code point of Unicode.
\<close>

definition hex_digit :: "nat \<Rightarrow> nat" where
  "hex_digit d = (if d < 10 then 48 + d else 87 + d)"

definition hex4 :: "nat \<Rightarrow> pystr" where
  "hex4 n = [hex_digit (n div 4096 mod 16), hex_digit (n div 256 mod 16),
             hex_digit (n div 16 mod 16), hex_digit (n mod 16)]"

definition escape_char :: "nat \<Rightarrow> pystr" where
  "escape_char c =
     (if c = backslash then [backslash, backslash]
      else if c = quote then [backslash, quote]
      else if c = 8 then backslash # lit ''b''
      else if c = 12 then backslash # lit ''f''
      else if c = 10 then backslash # lit ''n''
      else if c = 13 then backslash # lit ''r''
      else if c = 9 then backslash # lit ''t''
      else if 32 \<le> c \<and> c \<le> 126 then [c]
      else if c < 0x10000 then backslash # lit ''u'' @ hex4 c
      else (let n = c - 0x10000;
                s1 = 0xd800 OR (drop_bit 10 n AND 0x3ff);
                s2 = 0xdc00 OR (n AND 0x3ff)
            in backslash # lit ''u'' @ hex4 s1 @ backslash # lit ''u'' @ hex4 s2))"

definition encode_basestring_ascii :: "pystr \<Rightarrow> pystr" where
  "encode_basestring_ascii s = quote # concat (map escape_char s) @ [quote]"

text \<open>
  \<^verbatim>\<open>json.dumps(obj, separators=(item_sep, key_sep))\<close> with every other option at its
  default: no indentation, keys in the dict's order.
\<close>

fun json_dumps :: "pystr \<Rightarrow> pystr \<Rightarrow> json \<Rightarrow> pystr" where
  "json_dumps item_sep key_sep JNull = lit ''null''"
| "json_dumps item_sep key_sep (JBool b) = (if b then lit ''true'' else lit ''false'')"
| "json_dumps item_sep key_sep (JInt i) = int_repr i"
| "json_dumps item_sep key_sep (JFloat f) = floatstr f"
| "json_dumps item_sep key_sep (JStr s) = encode_basestring_ascii s"
| "json_dumps item_sep key_sep (JList xs) =
     lit ''['' @ join item_sep (map (json_dumps item_sep key_sep) xs) @ lit '']''"
| "json_dumps item_sep key_sep (JDict kvs) =
     lit ''{'' @
     join item_sep
       (map (\<lambda>(k, v). encode_basestring_ascii k @ key_sep @ json_dumps item_sep key_sep v) kvs) @
     lit ''}''"

text \<open>
  The three uses the program makes of it: \<^verbatim>\<open>json.dumps(obj)\<close>,
  \<^verbatim>\<open>json.dumps(obj, separators=(',', ':'))\<close> and
  \<^verbatim>\<open>json.dumps(obj, separators=(', ', ': '))\<close>. The default separators of
  \<^verbatim>\<open>json.dumps\<close> without indentation are the spaced ones.
\<close>

definition dumps_default :: "json \<Rightarrow> pystr" where
  "dumps_default obj = json_dumps (lit '', '') (lit '': '') obj"

definition dumps_compact :: "json \<Rightarrow> pystr" where
  "dumps_compact obj = json_dumps (lit '','') (lit '':'') obj"

definition dumps_spaced :: "json \<Rightarrow> pystr" where
  "dumps_spaced obj = json_dumps (lit '', '') (lit '': '') obj"

section \<open>The class \<^verbatim>\<open>SemiBeautifier\<close>\<close>

text \<open>
  The object's three attributes, and \<^verbatim>\<open>__init__\<close>, which sets them from the three
  options (Python integers). \<^verbatim>\<open>' ' * indent\<close> is the empty string for a negative
  \<^verbatim>\<open>indent\<close>.
\<close>

record beautifier =
  max_inline_length :: int
  max_inline_items :: int
  indent_str :: pystr

definition SemiBeautifier :: "int \<Rightarrow> int \<Rightarrow> int \<Rightarrow> beautifier" where
  "SemiBeautifier max_len max_items indent =
     \<lparr>max_inline_length = max_len, max_inline_items = max_items,
      indent_str = str_mul (lit '' '') (nat indent)\<rparr>"

text \<open>The defaults of \<^verbatim>\<open>__init__\<close> and of the command line.\<close>

definition default_beautifier :: beautifier where
  "default_beautifier = SemiBeautifier 80 3 4"

text \<open>
  The options the interface asks for: \<^verbatim>\<open>maxInlineLength > 0\<close>,
  \<^verbatim>\<open>maxInlineItems \<ge> 0\<close>, \<^verbatim>\<open>indentWidth \<ge> 0\<close>.
\<close>

definition valid_config :: "int \<Rightarrow> int \<Rightarrow> int \<Rightarrow> bool" where
  "valid_config max_len max_items indent = (0 < max_len \<and> 0 \<le> max_items \<and> 0 \<le> indent)"

subsection \<open>\<^verbatim>\<open>should_inline\<close>\<close>

definition operators :: "pystr list" where
  "operators = [lit ''var'', lit ''=='', lit ''!='', lit ''>'', lit ''<'', lit ''>='',
                lit ''<='', lit ''in'', lit ''cat'', lit ''substr'']"

text \<open>
  Lines 29 to 33: for a dict of one key that is an operator, the value under it
  (\<open>Some value\<close>, on which line 34 recurses); \<open>None\<close> when the test falls through.
\<close>

definition operator_value :: "(pystr \<times> json) list \<Rightarrow> error + json option" where
  "operator_value obj =
     (if length obj = 1 then
        (case next_iter obj of
           Inl e \<Rightarrow> Inl e
         | Inr key \<Rightarrow>
             (case getitem obj key of
                Inl e \<Rightarrow> Inl e
              | Inr value \<Rightarrow> if key \<in> set operators then Inr (Some value) else Inr None))
      else Inr None)"

lemma getitem_size:
  "getitem obj key = Inr value \<Longrightarrow> size value < size (JDict obj)"
proof -
  assume "getitem obj key = Inr value"
  then have "(key, value) \<in> set obj"
    by (auto simp: getitem_def split: option.splits dest: map_of_SomeD)
  then have "size_prod (\<lambda>_. 0) size (key, value) \<le> size_list (size_prod (\<lambda>_. 0) size) obj"
    by (rule size_list_estimation') simp
  then show ?thesis by simp
qed

lemma operator_value_size:
  "operator_value obj = Inr (Some value) \<Longrightarrow> size value < size (JDict obj)"
  by (auto simp: operator_value_def split: if_splits sum.splits dest: getitem_size)

lemma values_size:
  "(k, v) \<in> set obj \<Longrightarrow> size v < size (JDict obj)"
proof -
  assume "(k, v) \<in> set obj"
  then have "size_prod (\<lambda>_. 0) size (k, v) \<le> size_list (size_prod (\<lambda>_. 0) size) obj"
    by (rule size_list_estimation') simp
  then show ?thesis by simp
qed

lemma items_size:
  "item \<in> set obj \<Longrightarrow> size item < size (JList obj)"
proof -
  assume "item \<in> set obj"
  then have "size item \<le> size_list size obj"
    by (rule size_list_estimation') simp
  then show ?thesis by simp
qed

text \<open>
  The method itself. The last line of the source, \<^verbatim>\<open>return False\<close>, is for an object
  that is neither a scalar, a dict nor a list: the decoder builds none.
\<close>

function should_inline :: "beautifier \<Rightarrow> json \<Rightarrow> error + bool" where
  "should_inline self JNull = Inr True"
| "should_inline self (JBool b) = Inr True"
| "should_inline self (JInt i) = Inr True"
| "should_inline self (JFloat f) = Inr True"
| "should_inline self (JStr s) = Inr True"
| "should_inline self (JDict obj) =
     (case operator_value obj of
        Inl e \<Rightarrow> Inl e
      | Inr (Some value) \<Rightarrow> should_inline self value
      | Inr None \<Rightarrow>
          if int (length obj) > max_inline_items self then Inr False
          else
            (case for_all (should_inline self) (map snd obj) of
               Inl e \<Rightarrow> Inl e
             | Inr False \<Rightarrow> Inr False
             | Inr True \<Rightarrow>
                 Inr (int (length (dumps_compact (JDict obj))) \<le> max_inline_length self)))"
| "should_inline self (JList obj) =
     (if int (length obj) > max_inline_items self then Inr False
      else
        (case for_all (should_inline self) obj of
           Inl e \<Rightarrow> Inl e
         | Inr False \<Rightarrow> Inr False
         | Inr True \<Rightarrow>
             Inr (int (length (dumps_compact (JList obj))) \<le> max_inline_length self)))"
  by pat_completeness auto
termination
  by (relation "measure (\<lambda>(self, obj). size obj)")
     (auto dest: operator_value_size values_size items_size)

subsection \<open>\<^verbatim>\<open>format_value\<close>\<close>

text \<open>\<^verbatim>\<open>self.indent_str * depth\<close>\<close>

definition indent_of :: "beautifier \<Rightarrow> nat \<Rightarrow> pystr" where
  "indent_of self depth = str_mul (indent_str self) depth"

text \<open>
  Lines 81 to 97: the tests for the two special layouts. The result is the key and the
  items of the list under it when the dict has one key and either the key is \<^verbatim>\<open>if\<close> and
  the list has at least two items, or the key is \<^verbatim>\<open>and\<close> or \<^verbatim>\<open>or\<close> and the list has more
  than two; \<open>None\<close> when the dict goes on to the regular formatting.
\<close>

definition bracket_pattern :: "(pystr \<times> json) list \<Rightarrow> error + (pystr \<times> json list) option" where
  "bracket_pattern obj =
     (if length obj = 1 then
        (case next_iter obj of
           Inl e \<Rightarrow> Inl e
         | Inr key \<Rightarrow>
             (case getitem obj key of
                Inl e \<Rightarrow> Inl e
              | Inr value \<Rightarrow>
                  (case value of
                     JList items \<Rightarrow>
                       if key = lit ''if'' \<and> length items \<ge> 2
                       then Inr (Some (lit ''if'', items))
                       else if key \<in> set [lit ''and'', lit ''or''] \<and> length items > 2
                       then Inr (Some (key, items))
                       else Inr None
                   | _ \<Rightarrow> Inr None)))
      else Inr None)"

lemma bracket_pattern_size:
  "bracket_pattern obj = Inr (Some (key, value)) \<Longrightarrow> (i, item) \<in> set (enumerate 0 value)
   \<Longrightarrow> size item < size (JDict obj)"
proof -
  assume a: "bracket_pattern obj = Inr (Some (key, value))"
    and b: "(i, item) \<in> set (enumerate 0 value)"
  from a obtain k where "getitem obj k = Inr (JList value)"
    by (auto simp: bracket_pattern_def split: if_splits sum.splits json.splits)
  then have "size (JList value) < size (JDict obj)"
    by (rule getitem_size)
  moreover from b have "item \<in> set value"
    by (auto simp: in_set_enumerate_eq)
  then have "size item < size (JList value)"
    by (rule items_size)
  ultimately show ?thesis by simp
qed

text \<open>
  The method. \<open>collect\<close> runs the body of each \<^verbatim>\<open>for\<close> loop on every element: for the
  two special layouts the body yields what one round appends to \<^verbatim>\<open>result\<close>, for the
  regular layouts the string appended to \<^verbatim>\<open>items\<close>. The last line of the source,
  \<^verbatim>\<open>return json.dumps(obj)\<close>, is for an object that is neither a scalar, a dict nor a
  list.
\<close>

function format_value :: "beautifier \<Rightarrow> json \<Rightarrow> nat \<Rightarrow> error + pystr" where
  "format_value self JNull depth = Inr (dumps_default JNull)"
| "format_value self (JBool b) depth = Inr (dumps_default (JBool b))"
| "format_value self (JInt i) depth = Inr (dumps_default (JInt i))"
| "format_value self (JFloat f) depth = Inr (dumps_default (JFloat f))"
| "format_value self (JStr s) depth = Inr (dumps_default (JStr s))"
| "format_value self (JDict obj) depth =
     (case should_inline self (JDict obj) of
        Inl e \<Rightarrow> Inl e
      | Inr True \<Rightarrow> Inr (dumps_spaced (JDict obj))
      | Inr False \<Rightarrow>
          if obj = [] then Inr (lit ''{}'')
          else
            (case bracket_pattern obj of
               Inl e \<Rightarrow> Inl e
             | Inr (Some (key, value)) \<Rightarrow>
                 (case collect
                         (\<lambda>(i, item).
                            case format_value self item (depth + 1) of
                              Inl e \<Rightarrow> Inl e
                            | Inr s \<Rightarrow>
                                Inr (indent_of self (depth + 1) @ s @
                                     (if int i < int (length value) - 1 then lit '','' else []) @
                                     lit ''\<newline>''))
                         (enumerate 0 value) of
                    Inl e \<Rightarrow> Inl e
                  | Inr rounds \<Rightarrow>
                      Inr (lit ''{ \"'' @ key @ lit ''\": [\<newline>'' @ concat rounds @
                           indent_of self depth @ lit '']}''))
             | Inr None \<Rightarrow>
                 (case collect
                         (\<lambda>(k, v).
                            case format_value self v (depth + 1) of
                              Inl e \<Rightarrow> Inl e
                            | Inr formatted_value \<Rightarrow>
                                Inr (indent_of self (depth + 1) @ lit ''\"'' @ k @ lit ''\": '' @
                                     formatted_value))
                         obj of
                    Inl e \<Rightarrow> Inl e
                  | Inr items \<Rightarrow>
                      Inr (lit ''{\<newline>'' @ join (lit '',\<newline>'') items @ lit ''\<newline>'' @
                           indent_of self depth @ lit ''}''))))"
| "format_value self (JList obj) depth =
     (case should_inline self (JList obj) of
        Inl e \<Rightarrow> Inl e
      | Inr True \<Rightarrow> Inr (dumps_spaced (JList obj))
      | Inr False \<Rightarrow>
          if obj = [] then Inr (lit ''[]'')
          else if list_all is_scalar obj \<and>
                  int (length (dumps_spaced (JList obj))) \<le> max_inline_length self
          then Inr (dumps_spaced (JList obj))
          else
            (case collect
                    (\<lambda>item.
                       case format_value self item (depth + 1) of
                         Inl e \<Rightarrow> Inl e
                       | Inr s \<Rightarrow> Inr (indent_of self (depth + 1) @ s))
                    obj of
               Inl e \<Rightarrow> Inl e
             | Inr items \<Rightarrow>
                 Inr (lit ''[\<newline>'' @ join (lit '',\<newline>'') items @ lit ''\<newline>'' @
                      indent_of self depth @ lit '']'')))"
  by pat_completeness auto
termination
  by (relation "measure (\<lambda>(self, obj, depth). size obj)")
     (auto dest: bracket_pattern_size values_size items_size)

subsection \<open>\<^verbatim>\<open>beautify\<close>\<close>

definition beautify :: "beautifier \<Rightarrow> json \<Rightarrow> error + pystr" where
  "beautify self data = format_value self data 0"

section \<open>The limits of the interpreter\<close>








section \<open>The layouts in the specification's words\<close>

text \<open>
  The two multi-line layouts of a dict as the specification describes them, to compare
  with what the loops of \<open>format_value\<close> build. The special layout (rules 3b and 3c):
  the brace, the key and the bracket on one line, every element on a line of its own at
  the next indentation, commas between the lines and none after the last, then \<^verbatim>\<open>]}\<close>
  at the current indentation. The generic layout (rule 3d): \<^verbatim>\<open>{\<close>, one line
  \<^verbatim>\<open>"<key>": <value>\<close> per entry at the next indentation, commas between the lines,
  then \<^verbatim>\<open>}\<close> at the current indentation.
\<close>

definition spec_bracket_layout :: "pystr \<Rightarrow> pystr \<Rightarrow> pystr \<Rightarrow> pystr list \<Rightarrow> pystr" where
  "spec_bracket_layout key indent next_indent elements =
     lit ''{ \"'' @ key @ lit ''\": [\<newline>'' @
     join (lit '',\<newline>'') (map (\<lambda>s. next_indent @ s) elements) @
     lit ''\<newline>'' @ indent @ lit '']}''"

definition spec_generic_layout :: "pystr \<Rightarrow> pystr \<Rightarrow> (pystr \<times> pystr) list \<Rightarrow> pystr" where
  "spec_generic_layout indent next_indent entries =
     lit ''{\<newline>'' @
     join (lit '',\<newline>'')
       (map (\<lambda>(k, s). next_indent @ lit ''\"'' @ k @ lit ''\": '' @ s) entries) @
     lit ''\<newline>'' @ indent @ lit ''}''"

section \<open>Inputs of the examples\<close>

definition five_ints :: json where
  "five_ints = JList [JInt 1, JInt 2, JInt 3, JInt 4, JInt 5]"

text \<open>
  Two documents: \<^verbatim>\<open>{"a": 1, "b": [1,2,3,4]}\<close>, and a dict with the same list under one
  key, the eleven characters \<^verbatim>\<open>a": 1,\<close>, a line break, four spaces and \<^verbatim>\<open>"b\<close>
  (in JSON text the key is written \<^verbatim>\<open>"a\": 1,\n    \"b"\<close>).
\<close>

definition two_key_doc :: json where
  "two_key_doc =
     JDict [(lit ''a'', JInt 1), (lit ''b'', JList [JInt 1, JInt 2, JInt 3, JInt 4])]"

definition crafted_key_doc :: json where
  "crafted_key_doc =
     JDict [(lit ''a\": 1,\<newline>    \"b'', JList [JInt 1, JInt 2, JInt 3, JInt 4])]"

text \<open>
  \<^verbatim>\<open>{"and": [1, {"k": "0123456789"}]}\<close>: an \<^verbatim>\<open>and\<close> over exactly two operands, too
  long to be inline when \<open>max_inline_length\<close> is 10.
\<close>

definition and_two_doc :: json where
  "and_two_doc =
     JDict [(lit ''and'', JList [JInt 1, JDict [(lit ''k'', JStr (lit ''0123456789''))]])]"



section \<open>Auxiliary facts\<close>

subsection \<open>\<open>should_inline\<close> returns, and what it returns\<close>

lemma operator_value_single:
  "operator_value [(key, value)] = Inr (if key \<in> set operators then Some value else None)"
  by (simp add: operator_value_def next_iter_def getitem_def)

lemma operator_value_other:
  "length obj \<noteq> 1 \<Longrightarrow> operator_value obj = Inr None"
  by (simp add: operator_value_def)

lemma operator_value_returns: "\<exists>r. operator_value obj = Inr r"
proof (cases "length obj = 1")
  case True
  then obtain k v where "obj = [(k, v)]"
    by (cases obj) auto
  then show ?thesis by (simp add: operator_value_single)
next
  case False
  then show ?thesis by (simp add: operator_value_other)
qed

lemma for_all_returns:
  "(\<And>x. x \<in> set xs \<Longrightarrow> \<exists>b. f x = Inr b) \<Longrightarrow>
   for_all f xs = Inr (\<forall>x\<in>set xs. f x = Inr True)"
proof (induction xs)
  case Nil
  then show ?case by simp
next
  case (Cons x xs)
  then obtain b where b: "f x = Inr b" by auto
  from Cons have "for_all f xs = Inr (\<forall>x\<in>set xs. f x = Inr True)" by simp
  with b show ?case by auto
qed

lemma should_inline_returns: "\<exists>b. should_inline self obj = Inr b"
proof (induction self obj rule: should_inline.induct)
  case (6 self obj)
  obtain r where r: "operator_value obj = Inr r"
    using operator_value_returns by blast
  show ?case
  proof (cases r)
    case None
    show ?thesis
    proof (cases "int (length obj) > max_inline_items self")
      case True
      with r None show ?thesis by auto
    next
      case False
      with 6 r None have "\<And>x. x \<in> set (map snd obj) \<Longrightarrow> \<exists>b. should_inline self x = Inr b"
        by blast
      then have "for_all (should_inline self) (map snd obj) =
        Inr (\<forall>x\<in>set (map snd obj). should_inline self x = Inr True)"
        by (rule for_all_returns)
      with r None False show ?thesis by (auto split: bool.splits)
    qed
  next
    case (Some operand)
    with 6 r show ?thesis by simp
  qed
next
  case (7 self obj)
  show ?case
  proof (cases "int (length obj) > max_inline_items self")
    case True
    then show ?thesis by auto
  next
    case False
    with 7 have "\<And>x. x \<in> set obj \<Longrightarrow> \<exists>b. should_inline self x = Inr b"
      by blast
    then have "for_all (should_inline self) obj = Inr (\<forall>x\<in>set obj. should_inline self x = Inr True)"
      by (rule for_all_returns)
    with False show ?thesis by (auto split: bool.splits)
  qed
qed auto

lemma should_inline_list:
  "should_inline self (JList obj) =
     Inr (int (length obj) \<le> max_inline_items self \<and>
          (\<forall>item\<in>set obj. should_inline self item = Inr True) \<and>
          int (length (dumps_compact (JList obj))) \<le> max_inline_length self)"
proof -
  have "for_all (should_inline self) obj = Inr (\<forall>x\<in>set obj. should_inline self x = Inr True)"
    by (rule for_all_returns) (rule should_inline_returns)
  then show ?thesis by (auto split: bool.splits)
qed

lemma should_inline_dict:
  "operator_value obj = Inr None \<Longrightarrow>
   should_inline self (JDict obj) =
     Inr (int (length obj) \<le> max_inline_items self \<and>
          (\<forall>v\<in>set (map snd obj). should_inline self v = Inr True) \<and>
          int (length (dumps_compact (JDict obj))) \<le> max_inline_length self)"
proof -
  assume a: "operator_value obj = Inr None"
  have "for_all (should_inline self) (map snd obj) =
      Inr (\<forall>x\<in>set (map snd obj). should_inline self x = Inr True)"
    by (rule for_all_returns) (rule should_inline_returns)
  with a show ?thesis by (auto split: bool.splits)
qed

subsection \<open>\<open>format_value\<close> returns\<close>

lemma collect_returns:
  assumes "\<And>x. x \<in> set xs \<Longrightarrow> \<exists>s. F x = Inr s"
  shows "collect (\<lambda>x. case F x of Inl e \<Rightarrow> Inl e | Inr s \<Rightarrow> Inr (G s)) xs =
         Inr (map (\<lambda>x. G (projr (F x))) xs)"
  using assms
proof (induction xs)
  case Nil
  then show ?case by simp
next
  case (Cons x xs)
  then obtain s where s: "F x = Inr s" by auto
  from Cons have "collect (\<lambda>x. case F x of Inl e \<Rightarrow> Inl e | Inr s \<Rightarrow> Inr (G s)) xs =
         Inr (map (\<lambda>x. G (projr (F x))) xs)" by simp
  with s show ?case by simp
qed

lemma collect_pairs_returns:
  assumes "\<And>a b. (a, b) \<in> set xs \<Longrightarrow> \<exists>s. F b = Inr s"
  shows "collect (\<lambda>(a, b). case F b of Inl e \<Rightarrow> Inl e | Inr s \<Rightarrow> Inr (G a s)) xs =
         Inr (map (\<lambda>(a, b). G a (projr (F b))) xs)"
  using assms
proof (induction xs)
  case Nil
  then show ?case by simp
next
  case (Cons x xs)
  obtain a b where x: "x = (a, b)" by (cases x)
  with Cons.prems obtain s where s: "F b = Inr s" by auto
  have "collect (\<lambda>(a, b). case F b of Inl e \<Rightarrow> Inl e | Inr s \<Rightarrow> Inr (G a s)) xs =
         Inr (map (\<lambda>(a, b). G a (projr (F b))) xs)"
  proof (rule Cons.IH)
    fix a b
    assume "(a, b) \<in> set xs"
    then have "(a, b) \<in> set (x # xs)" by simp
    then show "\<exists>s. F b = Inr s" by (rule Cons.prems)
  qed
  with s x show ?case by simp
qed

lemma bracket_pattern_single:
  "bracket_pattern [(key, v)] =
     Inr (case v of
            JList items \<Rightarrow>
              if key = lit ''if'' \<and> length items \<ge> 2 then Some (lit ''if'', items)
              else if key \<in> set [lit ''and'', lit ''or''] \<and> length items > 2
              then Some (key, items)
              else None
          | _ \<Rightarrow> None)"
  by (simp add: bracket_pattern_def next_iter_def getitem_def split: json.splits)

lemma bracket_pattern_other:
  "length obj \<noteq> 1 \<Longrightarrow> bracket_pattern obj = Inr None"
  by (simp add: bracket_pattern_def)

lemma bracket_pattern_returns: "\<exists>r. bracket_pattern obj = Inr r"
proof (cases "length obj = 1")
  case True
  then obtain k v where "obj = [(k, v)]"
    by (cases obj) auto
  then show ?thesis by (simp add: bracket_pattern_single)
next
  case False
  then show ?thesis by (simp add: bracket_pattern_other)
qed

lemma format_value_returns: "\<exists>s. format_value self obj depth = Inr s"
proof (induction self obj depth rule: format_value.induct)
  case (6 self obj depth)
  obtain b where b: "should_inline self (JDict obj) = Inr b"
    using should_inline_returns by blast
  obtain r where r: "bracket_pattern obj = Inr r"
    using bracket_pattern_returns by blast
  show ?case
  proof (cases "b \<or> obj = []")
    case True
    with b show ?thesis by (auto simp del: should_inline.simps split: bool.splits)
  next
    case False
    then have nb: "b = False" and ne: "obj \<noteq> []" by auto
    show ?thesis
    proof (cases r)
      case None
      have "\<exists>s. format_value self v (depth + 1) = Inr s" if "(k, v) \<in> set obj" for k v
        using "6.IH"(1)[OF b nb ne r None that] by simp
      then have "collect (\<lambda>(k, v). case format_value self v (depth + 1) of
                            Inl e \<Rightarrow> Inl e | Inr s \<Rightarrow> Inr (G k s)) obj =
                 Inr (map (\<lambda>(k, v). G k (projr (format_value self v (depth + 1)))) obj)"
        for G :: "pystr \<Rightarrow> pystr \<Rightarrow> pystr"
        by (rule collect_pairs_returns)
      with b nb ne r None show ?thesis by (simp del: should_inline.simps)
    next
      case (Some kv)
      obtain key items where kv: "kv = (key, items)" by (cases kv)
      have "\<exists>s. format_value self item (depth + 1) = Inr s"
        if "(i, item) \<in> set (enumerate 0 items)" for i item
        using "6.IH"(2)[OF b nb ne r Some kv[symmetric] that] by simp
      then have "collect (\<lambda>(i, item). case format_value self item (depth + 1) of
                            Inl e \<Rightarrow> Inl e | Inr s \<Rightarrow> Inr (G i s)) (enumerate 0 items) =
                 Inr (map (\<lambda>(i, item). G i (projr (format_value self item (depth + 1))))
                        (enumerate 0 items))"
        for G :: "nat \<Rightarrow> pystr \<Rightarrow> pystr"
        by (rule collect_pairs_returns)
      with b nb ne r Some kv show ?thesis by (simp del: should_inline.simps)
    qed
  qed
next
  case (7 self obj depth)
  obtain b where b: "should_inline self (JList obj) = Inr b"
    using should_inline_returns by blast
  show ?case
  proof (cases "b \<or> obj = [] \<or> (list_all is_scalar obj \<and>
                  int (length (dumps_spaced (JList obj))) \<le> max_inline_length self)")
    case True
    with b show ?thesis by (auto simp del: should_inline.simps split: bool.splits)
  next
    case False
    then have nb: "b = False" and ne: "obj \<noteq> []"
      and nl: "\<not> (list_all is_scalar obj \<and>
                  int (length (dumps_spaced (JList obj))) \<le> max_inline_length self)"
      by auto
    have "\<exists>s. format_value self x (depth + 1) = Inr s" if "x \<in> set obj" for x
      using "7.IH"[OF b nb ne nl that] .
    then have "collect (\<lambda>item. case format_value self item (depth + 1) of
                          Inl e \<Rightarrow> Inl e | Inr s \<Rightarrow> Inr (G s)) obj =
               Inr (map (\<lambda>item. G (projr (format_value self item (depth + 1)))) obj)"
      for G :: "pystr \<Rightarrow> pystr"
      by (rule collect_returns)
    with b nb ne nl show ?thesis by (simp del: should_inline.simps)
  qed
qed auto

text \<open>
  From here on the two equations of \<open>should_inline\<close> for a dict and a list are used
  through the facts above.
\<close>

declare should_inline.simps(6,7) [simp del]

lemma operator_value_None:
  "\<not> (\<exists>key v. obj = [(key, v)] \<and> key \<in> set operators) \<Longrightarrow> operator_value obj = Inr None"
proof (cases "length obj = 1")
  case True
  assume a: "\<not> (\<exists>key v. obj = [(key, v)] \<and> key \<in> set operators)"
  from True obtain k v where "obj = [(k, v)]"
    by (cases obj) auto
  with a show ?thesis by (simp add: operator_value_single)
next
  case False
  then show ?thesis by (simp add: operator_value_other)
qed

lemma should_inline_thresholds:
  "max_inline_length self = max_inline_length self' \<Longrightarrow>
   max_inline_items self = max_inline_items self' \<Longrightarrow>
   should_inline self obj = should_inline self' obj"
proof (induction self obj rule: should_inline.induct)
  case (6 self obj)
  obtain r where r: "operator_value obj = Inr r"
    using operator_value_returns by blast
  show ?case
  proof (cases r)
    case None
    show ?thesis
    proof (cases "int (length obj) > max_inline_items self")
      case True
      with r None "6.prems" show ?thesis
        by (simp add: should_inline.simps(6))
    next
      case False
      have "for_all (should_inline self) (map snd obj) = for_all (should_inline self') (map snd obj)"
      proof (rule for_all_cong)
        fix x assume "x \<in> set (map snd obj)"
        then show "should_inline self x = should_inline self' x"
          by (rule "6.IH"(1)[OF r None False _ "6.prems"])
      qed simp
      with r None "6.prems" show ?thesis
        by (simp add: should_inline.simps(6) split: sum.splits bool.splits)
    qed
  next
    case (Some operand)
    from "6.IH"(2)[OF r Some "6.prems"] r Some show ?thesis
      by (simp add: should_inline.simps(6))
  qed
next
  case (7 self obj)
  show ?case
  proof (cases "int (length obj) > max_inline_items self")
    case True
    with "7.prems" show ?thesis
      by (simp add: should_inline.simps(7))
  next
    case False
    have "for_all (should_inline self) obj = for_all (should_inline self') obj"
    proof (rule for_all_cong)
      fix x assume "x \<in> set obj"
      then show "should_inline self x = should_inline self' x"
        by (rule "7.IH"[OF False _ "7.prems"])
    qed simp
    with "7.prems" show ?thesis
      by (simp add: should_inline.simps(7) split: sum.splits bool.splits)
  qed
qed simp_all

subsection \<open>The layouts \<open>format_value\<close> builds\<close>

lemma lit_append: "lit (a @ b) = lit a @ lit b"
  by (simp add: lit_def)

lemma collect_plain:
  assumes "\<And>x. x \<in> set xs \<Longrightarrow> \<exists>s. F x = Inr s"
  shows "collect F xs = Inr (map (\<lambda>x. projr (F x)) xs)"
  using assms
proof (induction xs)
  case Nil
  then show ?case by simp
next
  case (Cons x xs)
  then obtain s where s: "F x = Inr s" by auto
  from Cons have "collect F xs = Inr (map (\<lambda>x. projr (F x)) xs)" by simp
  with s show ?case by simp
qed

lemma rounds_join:
  "xs \<noteq> [] \<Longrightarrow>
   concat (map (\<lambda>(i, x). ni @ F x @ (if int i < int (k + length xs) - 1 then c else []) @ nl)
             (enumerate k xs)) =
   join (c @ nl) (map (\<lambda>x. ni @ F x) xs) @ nl"
proof (induction xs arbitrary: k)
  case Nil
  then show ?case by simp
next
  case (Cons x xs)
  show ?case
  proof (cases xs)
    case Nil
    then show ?thesis by simp
  next
    case (Cons y ys)
    then have "xs \<noteq> []" by simp
    from Cons.IH [OF this, of "Suc k"] Cons show ?thesis
      by simp
  qed
qed

lemma format_value_dict_bracket:
  assumes ni: "should_inline self (JDict obj) = Inr False"
    and bp: "bracket_pattern obj = Inr (Some (key, items))"
  shows "format_value self (JDict obj) depth =
         Inr (spec_bracket_layout key (indent_of self depth) (indent_of self (depth + 1))
                (map (\<lambda>item. projr (format_value self item (depth + 1))) items))"
proof -
  from bp have ne: "obj \<noteq> []" and l: "items \<noteq> []"
    by (auto simp: bracket_pattern_def split: if_splits sum.splits json.splits)
  have "collect (\<lambda>(i, item). case format_value self item (depth + 1) of
                            Inl e \<Rightarrow> Inl e | Inr s \<Rightarrow> Inr (G i s)) (enumerate 0 items) =
                 Inr (map (\<lambda>(i, item). G i (projr (format_value self item (depth + 1))))
                        (enumerate 0 items))"
    for G :: "nat \<Rightarrow> pystr \<Rightarrow> pystr"
    by (rule collect_pairs_returns) (rule format_value_returns)
  with ni bp ne have "format_value self (JDict obj) depth =
     Inr (lit ''{ \"'' @ key @ lit ''\": [\<newline>'' @
          concat (map (\<lambda>(i, item). indent_of self (depth + 1) @
                         projr (format_value self item (depth + 1)) @
                         (if int i < int (0 + length items) - 1 then lit '','' else []) @
                         lit ''\<newline>'') (enumerate 0 items)) @
          indent_of self depth @ lit '']}'')"
    by simp
  also have "concat (map (\<lambda>(i, item). indent_of self (depth + 1) @
                         projr (format_value self item (depth + 1)) @
                         (if int i < int (0 + length items) - 1 then lit '','' else []) @
                         lit ''\<newline>'') (enumerate 0 items)) =
       join (lit '','' @ lit ''\<newline>'')
         (map (\<lambda>item. indent_of self (depth + 1) @ projr (format_value self item (depth + 1)))
            items) @ lit ''\<newline>''"
    using l by (rule rounds_join)
  finally show ?thesis
    by (simp add: spec_bracket_layout_def lit_append [symmetric] comp_def)
qed

lemma format_value_dict_generic:
  assumes ni: "should_inline self (JDict obj) = Inr False"
    and ne: "obj \<noteq> []"
    and bp: "bracket_pattern obj = Inr None"
  shows "format_value self (JDict obj) depth =
         Inr (spec_generic_layout (indent_of self depth) (indent_of self (depth + 1))
                (map (\<lambda>(k, v). (k, projr (format_value self v (depth + 1)))) obj))"
proof -
  have "collect (\<lambda>(k, v). case format_value self v (depth + 1) of
                            Inl e \<Rightarrow> Inl e | Inr s \<Rightarrow> Inr (G k s)) obj =
                 Inr (map (\<lambda>(k, v). G k (projr (format_value self v (depth + 1)))) obj)"
    for G :: "pystr \<Rightarrow> pystr \<Rightarrow> pystr"
    by (rule collect_pairs_returns) (rule format_value_returns)
  with ni bp ne have "format_value self (JDict obj) depth =
     Inr (lit ''{\<newline>'' @
          join (lit '',\<newline>'')
            (map (\<lambda>(k, v). indent_of self (depth + 1) @ lit ''\"'' @ k @ lit ''\": '' @
                     projr (format_value self v (depth + 1))) obj) @
          lit ''\<newline>'' @ indent_of self depth @ lit ''}'')"
    by simp
  then show ?thesis
    by (simp add: spec_generic_layout_def comp_def case_prod_unfold)
qed

lemma layouts_differ:
  "spec_generic_layout indent next_indent entries \<noteq>
   spec_bracket_layout key indent' next_indent' elements"
  by (simp add: spec_generic_layout_def spec_bracket_layout_def lit_def)

subsection \<open>The last character of the output\<close>

lemma nat_repr_last: "nat_repr n \<noteq> [] \<and> last (nat_repr n) = 48 + n mod 10"
  by (subst (1 2) nat_repr.simps) (simp del: nat_repr.simps)

lemma int_repr_last: "int_repr i \<noteq> [] \<and> last (int_repr i) \<noteq> newline"
  by (simp add: int_repr_def nat_repr_last newline_def)

lemma floatstr_last:
  "float_repr_ok (float_repr f) \<Longrightarrow> floatstr f \<noteq> [] \<and> last (floatstr f) \<noteq> newline"
proof -
  assume ok: "float_repr_ok (float_repr f)"
  then have ne: "float_repr f \<noteq> []"
    by (simp add: float_repr_ok_def)
  then have "last (float_repr f) \<in> set (float_repr f)"
    by simp
  with ok have "last (float_repr f) \<in> set (lit ''0123456789.e+-infa'')"
    by (auto simp: float_repr_ok_def list_all_iff)
  then have "last (float_repr f) \<noteq> newline"
    by (auto simp: lit_def newline_def)
  with ne show ?thesis
    by (simp add: floatstr_def lit_def newline_def)
qed

lemma scalar_last:
  "is_scalar obj \<Longrightarrow> wf_json obj \<Longrightarrow>
   dumps_default obj \<noteq> [] \<and> last (dumps_default obj) \<noteq> newline"
  by (cases obj)
     (simp_all add: dumps_default_def int_repr_last [unfolded newline_def]
        floatstr_last [unfolded newline_def] encode_basestring_ascii_def
        lit_def newline_def quote_def)

lemma dumps_spaced_container_last:
  "\<not> is_scalar obj \<Longrightarrow> dumps_spaced obj \<noteq> [] \<and> last (dumps_spaced obj) \<noteq> newline"
  by (cases obj) (simp_all add: dumps_spaced_def lit_def newline_def)

lemma format_value_dict_last:
  "format_value self (JDict obj) depth = Inr s \<Longrightarrow> s \<noteq> [] \<and> last s \<noteq> newline"
  using dumps_spaced_container_last [of "JDict obj"]
  by (auto simp: lit_def newline_def split: sum.splits bool.splits option.splits if_splits)

lemma format_value_list_last:
  "format_value self (JList obj) depth = Inr s \<Longrightarrow> s \<noteq> [] \<and> last s \<noteq> newline"
  using dumps_spaced_container_last [of "JList obj"]
  by (auto simp: lit_def newline_def split: sum.splits bool.splits option.splits if_splits)

subsection \<open>\<open>should_inline\<close> under the limits of the interpreter\<close>
























section \<open>Properties\<close>

text \<open>
  C2, as the code has it: for the array \<^verbatim>\<open>[1,2,3,4,5]\<close> under the default options
  (80, 3, 4), \<open>should_inline\<close> is false, since 5 items are more than 3; and
  \<open>format_value\<close>, which finds only scalars in the list and a one-line form of 15
  characters, returns that one line, \<^verbatim>\<open>[1, 2, 3, 4, 5]\<close>.
\<close>

theorem five_ints_one_line:
  "should_inline default_beautifier five_ints = Inr False \<and>
   format_value default_beautifier five_ints 0 = Inr (lit ''[1, 2, 3, 4, 5]'')"
  by code_simp

text \<open>
  C2 as the specification states it fails: the result is not the text with one integer
  per line, and it holds no line break at all.
\<close>

theorem five_ints_not_multi_line:
  "format_value default_beautifier five_ints 0 \<noteq>
     Inr (lit ''[\<newline>    1,\<newline>    2,\<newline>    3,\<newline>    4,\<newline>    5\<newline>]'') \<and>
   newline \<notin> set (projr (format_value default_beautifier five_ints 0))"
  by code_simp

text \<open>
  C3: for a dict of exactly one key that is one of the ten operators,
  \<open>should_inline\<close> of the dict is \<open>should_inline\<close> of the value under the key,
  whatever the options are: neither the count of items nor the length of the dict is
  looked at. For \<^verbatim>\<open>{"var": "x"}\<close> the answer is true and \<open>format_value\<close> returns the
  one line \<^verbatim>\<open>{"var": "x"}\<close>, with a space after the colon, for every beautifier and so
  for every \<open>max_inline_items\<close>.
\<close>

theorem operator_shorthand_inline:
  "(key \<in> set operators \<longrightarrow>
      should_inline self (JDict [(key, operand)]) = should_inline self operand) \<and>
   should_inline self (JDict [(lit ''var'', JStr (lit ''x''))]) = Inr True \<and>
   format_value self (JDict [(lit ''var'', JStr (lit ''x''))]) depth =
     Inr (lit ''{\"var\": \"x\"}'')"
proof -
  have 1: "should_inline self (JDict [(k, v)]) = should_inline self v"
    if "k \<in> set operators" for k v
    using that by (simp add: should_inline.simps(6) operator_value_single)
  have "lit ''var'' \<in> set operators"
    by (simp add: operators_def)
  then have 2: "should_inline self (JDict [(lit ''var'', JStr (lit ''x''))]) = Inr True"
    by (simp add: 1)
  have "dumps_spaced (JDict [(lit ''var'', JStr (lit ''x''))]) = lit ''{\"var\": \"x\"}''"
    by code_simp
  with 2 have 3: "format_value self (JDict [(lit ''var'', JStr (lit ''x''))]) depth =
     Inr (lit ''{\"var\": \"x\"}'')"
    by (simp del: should_inline.simps)
  from 1 2 3 show ?thesis by blast
qed

theorem operator_shorthand_inline_witness:
  "lit ''=='' \<in> set operators \<and>
   should_inline (SemiBeautifier 3 0 4) (JDict [(lit ''=='', JInt 1)]) = Inr True"
  using operator_shorthand_inline [where key = "lit ''==''" and self = "SemiBeautifier 3 0 4"
      and operand = "JInt 1"]
  by (simp add: operators_def)

text \<open>
  C4: for every list, and for every dict that is not one operator key with its value,
  \<open>should_inline\<close> is true exactly when the number of items (keys) is at most
  \<open>max_inline_items\<close>, every item (every value; the keys are not tested) is itself
  inline, and the compact encoding of the whole container, with separators \<^verbatim>\<open>,\<close> and
  \<^verbatim>\<open>:\<close>, has at most \<open>max_inline_length\<close> characters. So it is false when the count
  is too large, false when a child is not inline, and otherwise decided by the length.
\<close>

theorem container_inline_rule:
  "should_inline self (JList items) =
     Inr (int (length items) \<le> max_inline_items self \<and>
          (\<forall>item\<in>set items. should_inline self item = Inr True) \<and>
          int (length (dumps_compact (JList items))) \<le> max_inline_length self) \<and>
   (\<not> (\<exists>key v. obj = [(key, v)] \<and> key \<in> set operators) \<longrightarrow>
    should_inline self (JDict obj) =
     Inr (int (length obj) \<le> max_inline_items self \<and>
          (\<forall>(k, v)\<in>set obj. should_inline self v = Inr True) \<and>
          int (length (dumps_compact (JDict obj))) \<le> max_inline_length self))"
proof -
  have "(\<forall>v\<in>set (map snd obj). should_inline self v = Inr True) =
        (\<forall>(k, v)\<in>set obj. should_inline self v = Inr True)"
    by auto
  then show ?thesis
    using should_inline_list [of self items] should_inline_dict [of obj self]
      operator_value_None [of obj]
    by (simp del: should_inline.simps)
qed

theorem container_inline_rule_witness:
  "lit ''a'' \<notin> set operators \<and>
   should_inline (SemiBeautifier 80 3 4) (JDict [(lit ''a'', JList [JInt 1, JInt 2])]) = Inr True \<and>
   should_inline (SemiBeautifier 80 3 4) (JList [JInt 1, JInt 2, JInt 3, JInt 4]) = Inr False"
proof -
  let ?self = "SemiBeautifier 80 3 4"
  let ?obj = "[(lit ''a'', JList [JInt 1, JInt 2])]"
  let ?items = "[JInt 1, JInt 2, JInt 3, JInt 4]"
  have a: "lit ''a'' \<notin> set operators"
    by code_simp
  then have h: "\<not> (\<exists>key v. ?obj = [(key, v)] \<and> key \<in> set operators)"
    by simp
  have d: "(int (length ?obj) \<le> max_inline_items ?self \<and>
            (\<forall>(k, v)\<in>set ?obj. should_inline ?self v = Inr True) \<and>
            int (length (dumps_compact (JDict ?obj))) \<le> max_inline_length ?self) = True"
    by code_simp
  have l: "(int (length ?items) \<le> max_inline_items ?self) = False"
    by code_simp
  from container_inline_rule [where self = ?self and obj = ?obj and items = ?items] h
  have "should_inline ?self (JDict ?obj) = Inr True"
    and "should_inline ?self (JList ?items) = Inr False"
    by (simp_all only: d l simp_thms)
  with a show ?thesis by blast
qed

text \<open>
  C6: with \<open>max_inline_length \<ge> 2\<close> and \<open>max_inline_items \<ge> 0\<close> the empty dict and
  the empty list are inline, and \<open>format_value\<close> returns exactly \<^verbatim>\<open>{}\<close> and \<^verbatim>\<open>[]\<close>
  at every depth.
\<close>

theorem empty_containers_inline:
  "2 \<le> max_inline_length self \<Longrightarrow> 0 \<le> max_inline_items self \<Longrightarrow>
   should_inline self (JDict []) = Inr True \<and>
   format_value self (JDict []) depth = Inr (lit ''{}'') \<and>
   should_inline self (JList []) = Inr True \<and>
   format_value self (JList []) depth = Inr (lit ''[]'')"
  by (simp add: should_inline_list should_inline_dict operator_value_other
      dumps_compact_def dumps_spaced_def lit_def)

theorem empty_containers_inline_witness:
  "2 \<le> max_inline_length (SemiBeautifier 2 0 4) \<and>
   0 \<le> max_inline_items (SemiBeautifier 2 0 4) \<and>
   format_value (SemiBeautifier 2 0 4) (JDict []) 3 = Inr (lit ''{}'') \<and>
   format_value (SemiBeautifier 2 0 4) (JList []) 3 = Inr (lit ''[]'')"
proof -
  have 1: "2 \<le> max_inline_length (SemiBeautifier 2 0 4)"
    and 2: "0 \<le> max_inline_items (SemiBeautifier 2 0 4)"
    by (simp_all add: SemiBeautifier_def)
  from empty_containers_inline [OF 1 2, of 3] 1 2 show ?thesis
    by blast
qed




text \<open>
  C9: the result of \<open>should_inline\<close> is determined by the value and the two
  thresholds of the beautifier: two calls on equal values, with beautifiers that agree
  on \<open>max_inline_length\<close> and \<open>max_inline_items\<close> (equal options give such
  beautifiers), return the same result. The indentation is not even read.
\<close>

theorem should_inline_deterministic:
  "obj = obj' \<Longrightarrow> max_inline_length self = max_inline_length self' \<Longrightarrow>
   max_inline_items self = max_inline_items self' \<Longrightarrow>
   should_inline self obj = should_inline self' obj'"
  using should_inline_thresholds [of self self' obj] by simp

theorem should_inline_deterministic_witness:
  "max_inline_length (SemiBeautifier 80 3 4) = max_inline_length (SemiBeautifier 80 3 2) \<and>
   max_inline_items (SemiBeautifier 80 3 4) = max_inline_items (SemiBeautifier 80 3 2) \<and>
   indent_str (SemiBeautifier 80 3 4) \<noteq> indent_str (SemiBeautifier 80 3 2) \<and>
   should_inline (SemiBeautifier 80 3 4) five_ints = should_inline (SemiBeautifier 80 3 2) five_ints"
proof -
  have 1: "max_inline_length (SemiBeautifier 80 3 4) = max_inline_length (SemiBeautifier 80 3 2)"
    and 2: "max_inline_items (SemiBeautifier 80 3 4) = max_inline_items (SemiBeautifier 80 3 2)"
    by (simp_all add: SemiBeautifier_def)
  have 3: "indent_str (SemiBeautifier 80 3 4) \<noteq> indent_str (SemiBeautifier 80 3 2)"
    by (simp add: SemiBeautifier_def str_mul_def lit_def eval_nat_numeral)
  from should_inline_deterministic [OF refl 1 2, of five_ints] 1 2 3 show ?thesis
    by blast
qed

text \<open>
  C10: a value and valid options for which \<open>should_inline\<close> is true while the line
  \<open>format_value\<close> returns is longer than \<open>max_inline_length\<close>. For \<^verbatim>\<open>[1,2,3]\<close> with
  \<open>max_inline_length = 7\<close> the compact encoding measured is \<^verbatim>\<open>[1,2,3]\<close>, 7
  characters, and the line returned is \<^verbatim>\<open>[1, 2, 3]\<close>, 9 characters.
\<close>

theorem inline_longer_than_limit:
  "valid_config 7 3 4 \<and>
   should_inline (SemiBeautifier 7 3 4) (JList [JInt 1, JInt 2, JInt 3]) = Inr True \<and>
   dumps_compact (JList [JInt 1, JInt 2, JInt 3]) = lit ''[1,2,3]'' \<and>
   format_value (SemiBeautifier 7 3 4) (JList [JInt 1, JInt 2, JInt 3]) 0 = Inr (lit ''[1, 2, 3]'') \<and>
   int (length (lit ''[1, 2, 3]'')) > max_inline_length (SemiBeautifier 7 3 4)"
  by code_simp

text \<open>
  C1 fails on the code. The regular layout of a dict (line 111) puts the key between
  two quotes as it is, without the escaping \<^verbatim>\<open>json.dumps\<close> applies to a key on the
  inline path. Under the default options the two documents above, both well-formed and
  different, are formatted to the same text; that text is the JSON of the first, so
  parsing what \<open>beautify\<close> returns for the second cannot give the second back, whatever
  the parser. The last line is what the inline path would write for the same key.
\<close>

theorem raw_key_collision:
  "wf_json two_key_doc \<and> wf_json crafted_key_doc \<and> two_key_doc \<noteq> crafted_key_doc \<and>
   beautify default_beautifier crafted_key_doc =
     Inr (lit ''{\<newline>    \"a\": 1,\<newline>    \"b\": [1, 2, 3, 4]\<newline>}'') \<and>
   beautify default_beautifier two_key_doc = beautify default_beautifier crafted_key_doc \<and>
   dumps_spaced crafted_key_doc =
     lit ''{\"a'' @ [backslash] @ lit ''\": 1,'' @ [backslash] @ lit ''n    '' @ [backslash] @
     lit ''\"b\": [1, 2, 3, 4]}''"
proof -
  have wf: "wf_json two_key_doc \<and> wf_json crafted_key_doc"
    by (simp add: two_key_doc_def crafted_key_doc_def wf_str_def lit_def)
  have ne: "two_key_doc \<noteq> crafted_key_doc"
    by (simp add: two_key_doc_def crafted_key_doc_def)
  have crafted: "beautify default_beautifier crafted_key_doc =
     Inr (lit ''{\<newline>    \"a\": 1,\<newline>    \"b\": [1, 2, 3, 4]\<newline>}'')"
    by code_simp
  have two: "beautify default_beautifier two_key_doc =
     Inr (lit ''{\<newline>    \"a\": 1,\<newline>    \"b\": [1, 2, 3, 4]\<newline>}'')"
    by code_simp
  have same: "beautify default_beautifier two_key_doc =
     beautify default_beautifier crafted_key_doc"
    by (simp only: crafted two)
  have escaped: "dumps_spaced crafted_key_doc =
     lit ''{\"a'' @ [backslash] @ lit ''\": 1,'' @ [backslash] @ lit ''n    '' @ [backslash] @
     lit ''\"b\": [1, 2, 3, 4]}''"
    by code_simp
  from wf ne crafted same escaped show ?thesis
    by blast
qed

text \<open>
  C5: take a dict of one key over a list, not inline, and let \<open>elements\<close> be the
  items of the list formatted one level deeper. With the key \<^verbatim>\<open>if\<close> and at least two
  items the output is the special layout of the specification (rule 3b); with the key
  \<^verbatim>\<open>and\<close> or \<^verbatim>\<open>or\<close> it is that layout only when there are more than two items. With
  \<^verbatim>\<open>and\<close> or \<^verbatim>\<open>or\<close> over two items (or fewer) the output is the generic layout of the
  dict (rule 3d), one line \<^verbatim>\<open>"<key>": <formatted list>\<close>, and differs from the special
  layout.
\<close>

theorem and_or_bracket_threshold:
  assumes "should_inline self (JDict [(key, JList items)]) = Inr False"
  shows "\<exists>elements.
     collect (\<lambda>item. format_value self item (depth + 1)) items = Inr elements \<and>
     (key = lit ''if'' \<and> 2 \<le> length items \<longrightarrow>
        format_value self (JDict [(key, JList items)]) depth =
          Inr (spec_bracket_layout (lit ''if'') (indent_of self depth)
                 (indent_of self (depth + 1)) elements)) \<and>
     (key \<in> {lit ''and'', lit ''or''} \<and> 2 < length items \<longrightarrow>
        format_value self (JDict [(key, JList items)]) depth =
          Inr (spec_bracket_layout key (indent_of self depth)
                 (indent_of self (depth + 1)) elements)) \<and>
     (key \<in> {lit ''and'', lit ''or''} \<and> length items \<le> 2 \<longrightarrow>
        (\<exists>s. format_value self (JList items) (depth + 1) = Inr s \<and>
             format_value self (JDict [(key, JList items)]) depth =
               Inr (spec_generic_layout (indent_of self depth) (indent_of self (depth + 1))
                      [(key, s)]) \<and>
             format_value self (JDict [(key, JList items)]) depth \<noteq>
               Inr (spec_bracket_layout key (indent_of self depth)
                      (indent_of self (depth + 1)) elements)))"
proof -
  let ?elements = "map (\<lambda>item. projr (format_value self item (depth + 1))) items"
  let ?obj = "[(key, JList items)]"
  have c: "collect (\<lambda>item. format_value self item (depth + 1)) items = Inr ?elements"
    by (rule collect_plain) (rule format_value_returns)
  have "if": "format_value self (JDict ?obj) depth =
          Inr (spec_bracket_layout (lit ''if'') (indent_of self depth)
                 (indent_of self (depth + 1)) ?elements)"
    if "key = lit ''if''" "2 \<le> length items"
  proof -
    from that have "bracket_pattern ?obj = Inr (Some (lit ''if'', items))"
      by (simp add: bracket_pattern_single)
    from format_value_dict_bracket [OF assms this] show ?thesis .
  qed
  have and_or: "format_value self (JDict ?obj) depth =
          Inr (spec_bracket_layout key (indent_of self depth)
                 (indent_of self (depth + 1)) ?elements)"
    if "key \<in> {lit ''and'', lit ''or''}" "2 < length items"
  proof -
    from that have "bracket_pattern ?obj = Inr (Some (key, items))"
      by (auto simp: bracket_pattern_single lit_def)
    from format_value_dict_bracket [OF assms this] show ?thesis .
  qed
  have two: "\<exists>s. format_value self (JList items) (depth + 1) = Inr s \<and>
             format_value self (JDict ?obj) depth =
               Inr (spec_generic_layout (indent_of self depth) (indent_of self (depth + 1))
                      [(key, s)]) \<and>
             format_value self (JDict ?obj) depth \<noteq>
               Inr (spec_bracket_layout key (indent_of self depth)
                      (indent_of self (depth + 1)) ?elements)"
    if "key \<in> {lit ''and'', lit ''or''}" "length items \<le> 2"
  proof -
    obtain s where s: "format_value self (JList items) (depth + 1) = Inr s"
      using format_value_returns by blast
    from that have "bracket_pattern ?obj = Inr None"
      by (auto simp: bracket_pattern_single lit_def)
    from format_value_dict_generic [OF assms _ this, of depth] s
    have "format_value self (JDict ?obj) depth =
               Inr (spec_generic_layout (indent_of self depth) (indent_of self (depth + 1))
                      [(key, s)])"
      by (simp del: format_value.simps)
    with s show ?thesis
      by (simp del: format_value.simps add: layouts_differ)
  qed
  from c "if" and_or two show ?thesis
    by blast
qed

theorem and_or_bracket_threshold_witness:
  "should_inline (SemiBeautifier 10 3 2) and_two_doc = Inr False \<and>
   (\<exists>s. format_value (SemiBeautifier 10 3 2)
           (JList [JInt 1, JDict [(lit ''k'', JStr (lit ''0123456789''))]]) 1 = Inr s \<and>
        format_value (SemiBeautifier 10 3 2) and_two_doc 0 =
          Inr (spec_generic_layout (indent_of (SemiBeautifier 10 3 2) 0)
                 (indent_of (SemiBeautifier 10 3 2) 1) [(lit ''and'', s)])) \<and>
   format_value (SemiBeautifier 10 3 2) and_two_doc 0 =
     Inr (lit ''{\<newline>  \"and\": [\<newline>    1,\<newline>    {\<newline>      \"k\": \"0123456789\"\<newline>    }\<newline>  ]\<newline>}'')"
proof -
  let ?self = "SemiBeautifier 10 3 2"
  let ?items = "[JInt 1, JDict [(lit ''k'', JStr (lit ''0123456789''))]]"
  have h: "should_inline ?self (JDict [(lit ''and'', JList ?items)]) = Inr False"
    by code_simp
  have k: "lit ''and'' \<in> {lit ''and'', lit ''or''} \<and> length ?items \<le> 2"
    by simp
  have out: "format_value ?self and_two_doc 0 =
     Inr (lit ''{\<newline>  \"and\": [\<newline>    1,\<newline>    {\<newline>      \"k\": \"0123456789\"\<newline>    }\<newline>  ]\<newline>}'')"
    by code_simp
  from and_or_bracket_threshold [OF h, of 0] k
  have "\<exists>s. format_value ?self (JList ?items) (0 + 1) = Inr s \<and>
        format_value ?self (JDict [(lit ''and'', JList ?items)]) 0 =
          Inr (spec_generic_layout (indent_of ?self 0) (indent_of ?self (0 + 1))
                 [(lit ''and'', s)])"
    by blast
  with h out show ?thesis
    by (simp del: format_value.simps add: and_two_doc_def)
qed

text \<open>
  C7: for every well-formed value and every beautifier, \<open>beautify\<close> returns a string,
  and that string is not empty and does not end with a line break. (It ends with a
  bracket, a brace, a quote, a letter or a digit; the hypothesis is used for a float at
  the top, whose text comes from \<^verbatim>\<open>repr\<close>.)
\<close>

theorem beautify_no_trailing_newline:
  "wf_json data \<Longrightarrow> \<exists>s. beautify self data = Inr s \<and> s \<noteq> [] \<and> last s \<noteq> newline"
proof -
  assume wf: "wf_json data"
  obtain s where s: "format_value self data 0 = Inr s"
    using format_value_returns by blast
  have "s \<noteq> [] \<and> last s \<noteq> newline"
  proof (cases "is_scalar data")
    case True
    with s have "s = dumps_default data"
      by (cases data) auto
    with True wf show ?thesis
      by (simp add: scalar_last)
  next
    case False
    with s show ?thesis
      by (cases data)
         (auto simp del: format_value.simps dest: format_value_dict_last format_value_list_last)
  qed
  with s show ?thesis
    by (simp add: beautify_def)
qed

theorem beautify_no_trailing_newline_witness:
  "wf_json two_key_doc \<and>
   (\<exists>s. beautify default_beautifier two_key_doc = Inr s \<and> s \<noteq> [] \<and> last s \<noteq> newline)"
proof -
  have wf: "wf_json two_key_doc"
    by (simp add: two_key_doc_def wf_str_def lit_def)
  from beautify_no_trailing_newline [OF wf, of default_beautifier] wf show ?thesis
    by blast
qed

end
